(* ===== verification/Prelude.thy ===== *)
theory Prelude
  imports Main
begin

text \<open>
  Shared vocabulary of the development: the names of the model's basic types, the
  collection of rewrite rules used to evaluate rendered markup, and the browser's
  class-attribute tokenizer (the \<open>className\<close> string of an element read as the list
  of its classes), with the lemmas on it that the component proofs share.
\<close>

type_synonym tag = string
type_synonym url = string
type_synonym path = "nat list"

named_theorems markup_simps "rules that evaluate queries on rendered markup"

subsection \<open>Class tokens\<close>

text \<open>
  A browser reads a \<open>class\<close> attribute as the sequence of its tokens, split at ASCII
  whitespace (space, tab, line feed, form feed, carriage return); empty tokens do not
  occur. \<open>tokens_acc cur s\<close> splits \<open>s\<close>, \<open>cur\<close> being the token read so far.
\<close>

definition is_ascii_ws :: "char \<Rightarrow> bool" where
  "is_ascii_ws c \<longleftrightarrow> c \<in> set [CHR '' '', CHR 0x09, CHR 0x0A, CHR 0x0C, CHR 0x0D]"

fun tokens_acc :: "string \<Rightarrow> string \<Rightarrow> string list" where
  "tokens_acc cur [] = (if cur = [] then [] else [cur])"
| "tokens_acc cur (c # cs) =
     (if is_ascii_ws c then (if cur = [] then tokens_acc [] cs else cur # tokens_acc [] cs)
      else tokens_acc (cur @ [c]) cs)"

definition class_tokens :: "string \<Rightarrow> string list" where
  "class_tokens s = tokens_acc [] s"

definition has_class :: "string \<Rightarrow> string \<Rightarrow> bool" where
  "has_class cls s \<longleftrightarrow> cls \<in> set (class_tokens s)"

lemma is_ascii_ws_space [simp]: "is_ascii_ws CHR '' ''"
  by (simp add: is_ascii_ws_def)

lemma tokens_acc_no_ws:
  "\<forall>c\<in>set s. \<not> is_ascii_ws c \<Longrightarrow> tokens_acc cur s = (if cur @ s = [] then [] else [cur @ s])"
  by (induction s arbitrary: cur) auto

lemma tokens_acc_ws_append:
  "is_ascii_ws c \<Longrightarrow>
   tokens_acc cur (xs @ c # ys) = tokens_acc cur xs @ tokens_acc [] ys"
  by (induction xs arbitrary: cur) auto

lemma class_tokens_space_append [markup_simps]:
  "class_tokens (xs @ CHR '' '' # ys) = class_tokens xs @ class_tokens ys"
  by (simp add: class_tokens_def tokens_acc_ws_append)

lemma class_tokens_word [markup_simps]:
  "\<forall>c\<in>set s. \<not> is_ascii_ws c \<Longrightarrow> class_tokens s = (if s = [] then [] else [s])"
  by (simp add: class_tokens_def tokens_acc_no_ws)

lemma class_tokens_Nil [markup_simps]: "class_tokens [] = []"
  by (simp add: class_tokens_def)

end
