(* ===== verification/Markup.thy ===== *)
theory Markup
  imports Prelude
begin

text \<open>
  The rendered output of a React component, as the JSX of the sources writes it: a tree
  of host elements (\<open><div className=...>\<close>), component elements (\<open><Link to=...>\<close>,
  \<open><MyHeader/>\<close>), text and fragments (\<open><>...</>\<close>). Attribute values are JavaScript
  values of the few kinds the sources use: strings, an imported asset, a function (an
  event handler, of the type parameter \<open>'h\<close>), an array of records (of \<open>'u\<close>) and
  \<open>undefined\<close>. The queries here are what a test of the rendered page reads: the node at
  a path of child indices, the nodes from the root down to it, all nodes in document
  order, an attribute, the text content.
\<close>

datatype ('h, 'u) pval =
    PStr string
  | PAsset string
  | PFun 'h
  | PList "'u list"
  | PUndef

type_synonym ('h, 'u) props = "(string \<times> ('h, 'u) pval) list"

datatype ('h, 'u) node =
    Elem tag "(string \<times> ('h, 'u) pval) list" "('h, 'u) node list"
  | Comp string "(string \<times> ('h, 'u) pval) list" "('h, 'u) node list"
  | Txt string
  | Frag "('h, 'u) node list"

text \<open>Reading a property of a props object: \<open>undefined\<close> when it is absent.\<close>

definition prop_get :: "('h, 'u) props \<Rightarrow> string \<Rightarrow> ('h, 'u) pval" where
  "prop_get ps k = (case map_of ps k of None \<Rightarrow> PUndef | Some v \<Rightarrow> v)"

fun props_of :: "('h, 'u) node \<Rightarrow> ('h, 'u) props" where
  "props_of (Elem _ ps _) = ps"
| "props_of (Comp _ ps _) = ps"
| "props_of (Txt _) = []"
| "props_of (Frag _) = []"

fun children :: "('h, 'u) node \<Rightarrow> ('h, 'u) node list" where
  "children (Elem _ _ cs) = cs"
| "children (Comp _ _ cs) = cs"
| "children (Txt _) = []"
| "children (Frag cs) = cs"

definition attr :: "string \<Rightarrow> ('h, 'u) node \<Rightarrow> ('h, 'u) pval" where
  "attr k t = prop_get (props_of t) k"

subsection \<open>Paths\<close>

text \<open>
  A path is the list of child indices from the root. A path that leaves the tree
  addresses nothing: \<open>None\<close>, never an unspecified child.
\<close>

fun subtree :: "('h, 'u) node \<Rightarrow> path \<Rightarrow> ('h, 'u) node option" where
  "subtree t [] = Some t"
| "subtree t (i # p) =
     (if i < length (children t) then subtree (children t ! i) p else None)"

fun path_nodes :: "('h, 'u) node \<Rightarrow> path \<Rightarrow> ('h, 'u) node list option" where
  "path_nodes t [] = Some [t]"
| "path_nodes t (i # p) =
     (if i < length (children t) then map_option (Cons t) (path_nodes (children t ! i) p)
      else None)"

subsection \<open>Document order and text\<close>

fun nodes :: "('h, 'u) node \<Rightarrow> ('h, 'u) node list" where
  "nodes (Elem n ps cs) = Elem n ps cs # concat (map nodes cs)"
| "nodes (Comp n ps cs) = Comp n ps cs # concat (map nodes cs)"
| "nodes (Txt s) = [Txt s]"
| "nodes (Frag cs) = Frag cs # concat (map nodes cs)"

fun text_content :: "('h, 'u) node \<Rightarrow> string" where
  "text_content (Elem _ _ cs) = concat (map text_content cs)"
| "text_content (Comp _ _ cs) = concat (map text_content cs)"
| "text_content (Txt s) = s"
| "text_content (Frag cs) = concat (map text_content cs)"

definition is_comp :: "string \<Rightarrow> ('h, 'u) node \<Rightarrow> bool" where
  "is_comp n t \<longleftrightarrow> (case t of Comp m _ _ \<Rightarrow> m = n | _ \<Rightarrow> False)"

definition find_all :: "(('h, 'u) node \<Rightarrow> bool) \<Rightarrow> ('h, 'u) node \<Rightarrow> ('h, 'u) node list" where
  "find_all P t = filter P (nodes t)"

text \<open>
  All paths that address a node of a tree, in document order; \<open>paths_of_list i cs\<close>
  are those into the children \<open>cs\<close> numbered from \<open>i\<close>. A property of every click
  on a finite view is a property of the paths listed here and of the paths outside it.
\<close>

fun paths_of :: "('h, 'u) node \<Rightarrow> path list"
  and paths_of_list :: "nat \<Rightarrow> ('h, 'u) node list \<Rightarrow> path list" where
  "paths_of (Elem _ _ cs) = [] # paths_of_list 0 cs"
| "paths_of (Comp _ _ cs) = [] # paths_of_list 0 cs"
| "paths_of (Txt _) = [[]]"
| "paths_of (Frag cs) = [] # paths_of_list 0 cs"
| "paths_of_list i [] = []"
| "paths_of_list i (c # cs) = map (Cons i) (paths_of c) @ paths_of_list (Suc i) cs"

text \<open>The class tokens of the node at a path, as \<open>element.classList\<close> reads them.\<close>

definition classes_at :: "('h, 'u) node \<Rightarrow> path \<Rightarrow> string list option" where
  "classes_at t p =
     map_option (\<lambda>n. case attr ''className'' n of PStr s \<Rightarrow> class_tokens s | _ \<Rightarrow> []) (subtree t p)"

declare classes_at_def [markup_simps] prop_get_def [markup_simps] attr_def [markup_simps]
  is_comp_def [markup_simps] find_all_def [markup_simps]

subsection \<open>Lemmas on paths\<close>

lemma subtree_append:
  "subtree t (p @ q) = (case subtree t p of None \<Rightarrow> None | Some s \<Rightarrow> subtree s q)"
  by (induction t p rule: subtree.induct) auto

lemma path_nodes_subtree:
  "path_nodes t p = Some ns \<Longrightarrow> ns \<noteq> [] \<and> hd ns = t \<and> subtree t p = Some (last ns)"
proof (induction t p arbitrary: ns rule: path_nodes.induct)
  case (1 t)
  then show ?case by auto
next
  case (2 t i p)
  then show ?case by (auto split: if_splits)
qed

lemma path_nodes_None_iff: "path_nodes t p = None \<longleftrightarrow> subtree t p = None"
  by (induction t p rule: path_nodes.induct) auto

lemma subtree_in_nodes: "subtree t p = Some s \<Longrightarrow> s \<in> set (nodes t)"
proof (induction t p rule: subtree.induct)
  case (1 t)
  then show ?case by (cases t) auto
next
  case (2 t i p)
  then have "s \<in> set (nodes (children t ! i))" and i: "i < length (children t)"
    by (auto split: if_splits)
  then show ?case by (cases t) (auto intro!: bexI [of _ "children t ! i"])
qed

lemma path_nodes_in_nodes: "path_nodes t p = Some ns \<Longrightarrow> set ns \<subseteq> set (nodes t)"
proof (induction t p arbitrary: ns rule: path_nodes.induct)
  case (1 t)
  then show ?case by (cases t) auto
next
  case (2 t i p)
  then obtain ns' where ns: "ns = t # ns'" and i: "i < length (children t)"
    and ns': "path_nodes (children t ! i) p = Some ns'"
    by (auto split: if_splits)
  from "2.IH" [OF i ns'] have "set ns' \<subseteq> set (nodes (children t ! i))" .
  moreover from i have "set (nodes (children t ! i)) \<subseteq> set (nodes t)"
    by (cases t) (auto intro!: bexI [of _ "children t ! i"])
  ultimately show ?case using ns by (cases t) auto
qed

lemma paths_of_subtree:
  fixes t :: "('h, 'u) node" and cs :: "('h, 'u) node list"
  shows "(p \<in> set (paths_of t) \<longleftrightarrow> subtree t p \<noteq> None)"
  and "(p \<in> set (paths_of_list i cs) \<longleftrightarrow>
     (\<exists>j q. p = (i + j) # q \<and> j < length cs \<and> subtree (cs ! j) q \<noteq> None))"
proof (induction t and i cs arbitrary: p and p rule: paths_of_paths_of_list.induct)
  case (1 n ps cs)
  then show ?case by (cases p) auto
next
  case (2 n ps cs)
  then show ?case by (cases p) auto
next
  case (3 s)
  then show ?case by (cases p) auto
next
  case (4 cs)
  then show ?case by (cases p) auto
next
  case (5 i)
  then show ?case by simp
next
  case (6 i c cs)
  show ?case
  proof
    assume "p \<in> set (paths_of_list i (c # cs))"
    then consider (hd) q where "p = i # q" "q \<in> set (paths_of c)"
      | (tl) "p \<in> set (paths_of_list (Suc i) cs)" by auto
    then show "\<exists>j q. p = (i + j) # q \<and> j < length (c # cs) \<and> subtree ((c # cs) ! j) q \<noteq> None"
    proof cases
      case hd
      with "6.IH"(1) show ?thesis by (intro exI [of _ 0]) auto
    next
      case tl
      with "6.IH"(2) obtain j q where "p = (Suc i + j) # q" "j < length cs" "subtree (cs ! j) q \<noteq> None"
        by blast
      then show ?thesis by (intro exI [of _ "Suc j"]) auto
    qed
  next
    assume "\<exists>j q. p = (i + j) # q \<and> j < length (c # cs) \<and> subtree ((c # cs) ! j) q \<noteq> None"
    then obtain j q where p: "p = (i + j) # q" and j: "j < length (c # cs)"
      and s: "subtree ((c # cs) ! j) q \<noteq> None" by blast
    show "p \<in> set (paths_of_list i (c # cs))"
    proof (cases j)
      case 0
      with p s "6.IH"(1) show ?thesis by auto
    next
      case (Suc j')
      with p j s "6.IH"(2) [of p] show ?thesis by auto
    qed
  qed
qed

end
