(* ===== verification/Runtime.thy ===== *)
theory Runtime
  imports Markup
begin

text \<open>
  The host the components run in, written from the spec (section 5: a single-threaded,
  event-driven re-render cycle) and from the documented behaviour of React's
  \<open>useState\<close> and react-router's \<open>Link\<close>; none of it is code of this repository.
  A mounted component instance with one state hook is a record: the hook's current
  value, the state updates queued by event handlers and not yet processed, the view
  (the markup of the last committed render) and the router location. A click is
  dispatched to the node at a path of the committed view and bubbles from that node to
  the root; each node on the way contributes its actions: a host element its
  \<open>onClick\<close> handler, a \<open>Link\<close> its navigation. A commit processes the update
  queue with React's basic state reducer (an update that is a value replaces the state)
  and renders again.
\<close>

datatype 's action = SetState 's | Navigate url

type_synonym ('s, 'u) view = "('s action, 'u) node"

record ('s, 'u) inst =
  hook :: 's
  pending :: "'s list"
  view :: "('s action, 'u) node"
  location :: url

datatype event = Click path | Commit

subsection \<open>Event dispatch\<close>

fun node_actions :: "('s action, 'u) node \<Rightarrow> 's action list" where
  "node_actions (Elem _ ps _) = (case prop_get ps ''onClick'' of PFun a \<Rightarrow> [a] | _ \<Rightarrow> [])"
| "node_actions (Comp n ps _) =
     (if n = ''Link'' then (case prop_get ps ''to'' of PStr u \<Rightarrow> [Navigate u] | _ \<Rightarrow> []) else [])"
| "node_actions (Txt _) = []"
| "node_actions (Frag _) = []"

text \<open>Bubbling: the target's actions first, then its parent's, up to the root.\<close>

definition click_actions :: "('s action, 'u) node \<Rightarrow> path \<Rightarrow> 's action list option" where
  "click_actions t p = map_option (\<lambda>ns. concat (map node_actions (rev ns))) (path_nodes t p)"

fun perform :: "'s action \<Rightarrow> ('s, 'u) inst \<Rightarrow> ('s, 'u) inst" where
  "perform (SetState v) st = st\<lparr>pending := pending st @ [v]\<rparr>"
| "perform (Navigate u) st = st\<lparr>location := u\<rparr>"

text \<open>A click on a path that leaves the view reaches no node and changes nothing.\<close>

definition click :: "path \<Rightarrow> ('s, 'u) inst \<Rightarrow> ('s, 'u) inst" where
  "click p st = (case click_actions (view st) p of None \<Rightarrow> st | Some as \<Rightarrow> fold perform as st)"

subsection \<open>Commit\<close>

definition basic_reducer :: "'s \<Rightarrow> 's \<Rightarrow> 's" where
  "basic_reducer s a = a"

definition process_queue :: "'s list \<Rightarrow> 's \<Rightarrow> 's" where
  "process_queue q s = fold (\<lambda>a s. basic_reducer s a) q s"

definition commit :: "('s \<Rightarrow> ('s, 'u) view) \<Rightarrow> ('s, 'u) inst \<Rightarrow> ('s, 'u) inst" where
  "commit render st =
     (if pending st = [] then st
      else (let s' = process_queue (pending st) (hook st)
            in st\<lparr>hook := s', pending := [], view := render s'\<rparr>))"

definition mount :: "('s \<Rightarrow> ('s, 'u) view) \<Rightarrow> 's \<Rightarrow> url \<Rightarrow> ('s, 'u) inst" where
  "mount render s0 loc = \<lparr>hook = s0, pending = [], view = render s0, location = loc\<rparr>"

fun step :: "('s \<Rightarrow> ('s, 'u) view) \<Rightarrow> ('s, 'u) inst \<Rightarrow> event \<Rightarrow> ('s, 'u) inst" where
  "step render st (Click p) = click p st"
| "step render st Commit = commit render st"

fun run :: "('s \<Rightarrow> ('s, 'u) view) \<Rightarrow> ('s, 'u) inst \<Rightarrow> event list \<Rightarrow> ('s, 'u) inst" where
  "run render st [] = st"
| "run render st (e # es) = run render (step render st e) es"

inductive reach :: "('s \<Rightarrow> ('s, 'u) view) \<Rightarrow> 's \<Rightarrow> url \<Rightarrow> ('s, 'u) inst \<Rightarrow> bool"
  for render s0 loc where
  start: "reach render s0 loc (mount render s0 loc)"
| step: "reach render s0 loc st \<Longrightarrow> reach render s0 loc (step render st e)"

definition consistent :: "('s \<Rightarrow> ('s, 'u) view) \<Rightarrow> ('s, 'u) inst \<Rightarrow> bool" where
  "consistent render st \<longleftrightarrow> view st = render (hook st)"

subsection \<open>Lemmas on the runtime\<close>

lemma process_queue_last: "q \<noteq> [] \<Longrightarrow> process_queue q s = last q"
  by (induction q arbitrary: s) (auto simp: process_queue_def basic_reducer_def)

lemma click_actions_in_nodes:
  "click_actions t p = Some as \<Longrightarrow> set as \<subseteq> (\<Union>n\<in>set (nodes t). set (node_actions n))"
  by (force simp: click_actions_def dest!: path_nodes_in_nodes)

lemma click_actions_Cons:
  "click_actions t (i # q) = Some as \<Longrightarrow>
   \<exists>as'. click_actions (children t ! i) q = Some as' \<and> as = as' @ node_actions t"
  by (auto simp: click_actions_def split: if_splits)

lemma fold_perform_frame:
  "hook (fold perform as st) = hook st \<and> view (fold perform as st) = view st"
proof (induction as arbitrary: st)
  case Nil
  then show ?case by simp
next
  case (Cons a as)
  then show ?case by (cases a) auto
qed

lemma fold_perform_pending:
  "pending (fold perform as st) = pending st @ [v. SetState v \<leftarrow> as]"
proof (induction as arbitrary: st)
  case Nil
  then show ?case by simp
next
  case (Cons a as)
  then show ?case by (cases a) auto
qed

lemma click_frame: "hook (click p st) = hook st \<and> view (click p st) = view st"
  by (simp add: click_def fold_perform_frame split: option.splits)

lemma click_pending:
  "pending (click p st) =
     pending st @ (case click_actions (view st) p of None \<Rightarrow> [] | Some as \<Rightarrow> [v. SetState v \<leftarrow> as])"
  by (simp add: click_def fold_perform_pending split: option.splits)

lemma commit_pending: "pending (commit render st) = []"
  by (simp add: commit_def Let_def)

lemma commit_hook:
  "hook (commit render st) = (if pending st = [] then hook st else last (pending st))"
  by (simp add: commit_def Let_def process_queue_last)

lemma step_consistent: "consistent render st \<Longrightarrow> consistent render (step render st e)"
  by (cases e) (auto simp: consistent_def click_frame commit_def Let_def)

lemma reach_consistent: "reach render s0 loc st \<Longrightarrow> consistent render st"
proof (induction rule: reach.induct)
  case start
  then show ?case by (simp add: consistent_def mount_def)
next
  case (step st e)
  from step.IH show ?case by (rule step_consistent)
qed

text \<open>
  The interface a component's render discharges: if every state update a click on the
  render of \<open>s\<close> can queue satisfies \<open>Q s\<close>, then in every reachable instance
  every queued update satisfies \<open>Q\<close> of the current state (handlers are closures over
  the render they belong to, and the committed view is the render of the current state).
\<close>

lemma reach_pending:
  assumes fresh: "\<And>s p as v. click_actions (render s) p = Some as \<Longrightarrow> SetState v \<in> set as \<Longrightarrow> Q s v"
  shows "reach render s0 loc st \<Longrightarrow> \<forall>v\<in>set (pending st). Q (hook st) v"
proof (induction rule: reach.induct)
  case start
  then show ?case by (simp add: mount_def)
next
  case (step st e)
  show ?case
  proof (cases e)
    case (Click p)
    from step.hyps have "view st = render (hook st)"
      by (simp add: reach_consistent [unfolded consistent_def])
    with step.IH Click show ?thesis
      by (auto simp: click_pending click_frame split: option.splits intro: fresh [OF sym])
  next
    case Commit
    then show ?thesis by (simp add: commit_pending)
  qed
qed

lemma run_append: "run render st (xs @ ys) = run render (run render st xs) ys"
  by (induction xs arbitrary: st) auto

lemma reach_interact:
  "reach render s0 loc st \<Longrightarrow> reach render s0 loc (commit render (click p st))"
  using reach.step [of render s0 loc st "Click p"] reach.step [of render s0 loc _ Commit] by simp

lemma reach_run: "reach render s0 loc st \<Longrightarrow> reach render s0 loc (run render st es)"
  by (induction es arbitrary: st) (auto intro: reach.step)


end
