(* ===== verification/BurgerButton.thy ===== *)
theory BurgerButton
  imports Runtime
begin

text \<open>
  The two navigation menus of \<open>src/frontend/src/components/BurgerButton/menu-button.jsx\<close>.
  \<open>BurgerButton\<close> is the render of the component for a value of its one state hook
  \<open>isOpen\<close> (\<open>useState(false)\<close>, line 7): a trigger \<open>div\<close> whose click handler is the
  closure \<open>handleClick\<close> built in that render, and a panel \<open>div\<close> with the four links,
  the logo image and, after it, the text \<open>;\<close> that the stray semicolon of line 30
  puts into the JSX. \<open>MyMenu\<close> is the static list of the same four links. The lemmas
  evaluate the render: the class tokens of trigger and panel, the actions a click
  anywhere in the view fires, and the links each menu shows.
\<close>

subsection \<open>Definitions\<close>

text \<open>
  \<open>handleClick\<close> reads \<open>isOpen\<close> from the render that created it and asks for the
  state \<open>!isOpen\<close>: a value update, not the functional form \<open>setIsOpen(o => !o)\<close>.
\<close>

definition handleClick :: "bool \<Rightarrow> bool action" where
  "handleClick isOpen = SetState (\<not> isOpen)"

definition buttonClass :: "bool \<Rightarrow> string" where
  "buttonClass isOpen = ''hamburger-menu '' @ (if isOpen then ''open'' else '''')"

definition menuClass :: "bool \<Rightarrow> string" where
  "menuClass isOpen = ''menu2 '' @ (if isOpen then ''menu2Open'' else '''')"

text \<open>\<open><Link to={u}>label</Link>\<close> of react-router.\<close>

definition Link :: "url \<Rightarrow> string \<Rightarrow> ('h, 'u) node" where
  "Link u label = Comp ''Link'' [(''to'', PStr u)] [Txt label]"

definition MCLogo :: string where
  "MCLogo = ''../../img/MetaClassLogo.png''"

definition BurgerButton_init :: bool where
  "BurgerButton_init = False"

definition BurgerButton :: "bool \<Rightarrow> (bool, 'u) view" where
  "BurgerButton isOpen =
     Elem ''div'' [(''className'', PStr ''responsiveMenu'')]
      [Elem ''div'' [(''className'', PStr (buttonClass isOpen)), (''onClick'', PFun (handleClick isOpen))]
         [Elem ''div'' [(''className'', PStr ''line'')] [],
          Elem ''div'' [(''className'', PStr ''line'')] [],
          Elem ''div'' [(''className'', PStr ''line'')] []],
       Elem ''div'' [(''className'', PStr (menuClass isOpen))]
         [Elem ''ul'' []
            [Elem ''li'' [] [Link ''/login'' ''LOGIN''],
             Elem ''li'' [] [Link ''/'' ''HOME''],
             Elem ''li'' [] [Link ''/'' ''ABOUT''],
             Elem ''li'' [] [Link ''/'' ''CONTACTS'']],
          Elem ''img'' [(''src'', PAsset MCLogo), (''className'', PStr ''App-logo''),
                        (''alt'', PStr ''no image''), (''id'', PStr ''menu2-image'')] [],
          Txt '';'']]"

definition MyMenu :: "('h, 'u) node" where
  "MyMenu =
     Elem ''div'' []
      [Link ''/login'' ''LOGIN'', Link ''/'' ''HOME'', Link ''/'' ''ABOUT'', Link ''/'' ''CONTACTS'']"

text \<open>The links a view shows, in document order, as (label, target) pairs.\<close>

definition links_of :: "('h, 'u) node \<Rightarrow> (string \<times> ('h, 'u) pval) list" where
  "links_of t = map (\<lambda>n. (text_content n, attr ''to'' n)) (find_all (is_comp ''Link'') t)"

text \<open>The four links both menus hard-code, in the order of the source.\<close>

definition nav_links :: "(string \<times> url) list" where
  "nav_links = [(''LOGIN'', ''/login''), (''HOME'', ''/''), (''ABOUT'', ''/''), (''CONTACTS'', ''/'')]"

text \<open>Paths in the view of \<open>BurgerButton\<close>: the trigger and its three bars.\<close>

definition trigger_paths :: "path list" where
  "trigger_paths = [[0], [0, 0], [0, 1], [0, 2]]"

lemmas burger_defs = BurgerButton_def buttonClass_def menuClass_def handleClick_def Link_def
  MCLogo_def

subsection \<open>Evaluation lemmas\<close>

lemma nodes_BurgerButton_actions:
  "(\<Union>n\<in>set (nodes (BurgerButton b)). set (node_actions n)) =
     {SetState (\<not> b), Navigate ''/login'', Navigate ''/''}"
  by (auto simp: burger_defs prop_get_def)

lemma BurgerButton_inj: "BurgerButton a = BurgerButton b \<Longrightarrow> a = b"
  by (simp add: burger_defs split: if_splits)

lemma BurgerButton_setstate:
  "click_actions (BurgerButton b) p = Some as \<Longrightarrow> SetState v \<in> set as \<Longrightarrow> v = (\<not> b)"
proof -
  assume "click_actions (BurgerButton b) p = Some as" and v: "SetState v \<in> set as"
  from click_actions_in_nodes [OF this(1)] have "set as \<subseteq> {SetState (\<not> b), Navigate ''/login'', Navigate ''/''}"
    by (simp only: nodes_BurgerButton_actions)
  with v show ?thesis by auto
qed

lemma burger_class_tokens:
  "class_tokens (buttonClass b) = ''hamburger-menu'' # (if b then [''open''] else [])"
  "class_tokens (menuClass b) = ''menu2'' # (if b then [''menu2Open''] else [])"
proof -
  show "class_tokens (buttonClass b) = ''hamburger-menu'' # (if b then [''open''] else [])"
    by (cases b) (simp_all add: buttonClass_def class_tokens_def is_ascii_ws_def)
  show "class_tokens (menuClass b) = ''menu2'' # (if b then [''menu2Open''] else [])"
    by (cases b) (simp_all add: menuClass_def class_tokens_def is_ascii_ws_def)
qed

subsection \<open>Properties of the render\<close>

text \<open>
  C6. The trigger's classes are \<open>hamburger-menu\<close>, followed by \<open>open\<close> exactly when
  \<open>isOpen\<close>; the panel's are \<open>menu2\<close>, followed by \<open>menu2Open\<close> exactly when
  \<open>isOpen\<close>. The trailing space of the closed class strings adds no class.
\<close>

theorem BurgerButton_classes:
  "classes_at (BurgerButton b) [0] = Some (''hamburger-menu'' # (if b then [''open''] else [])) \<and>
   classes_at (BurgerButton b) [1] = Some (''menu2'' # (if b then [''menu2Open''] else []))"
  by (simp add: BurgerButton_def markup_simps burger_class_tokens)

text \<open>
  C7. A click on the trigger or on any of its three bars fires exactly one action, the
  update of \<open>isOpen\<close> to the negation of the value the view was rendered with.
\<close>

theorem BurgerButton_click_trigger:
  "p \<in> set trigger_paths \<Longrightarrow> click_actions (BurgerButton b) p = Some [SetState (\<not> b)]"
  by (auto simp: trigger_paths_def click_actions_def burger_defs prop_get_def)

theorem BurgerButton_click_trigger_witness:
  "[0, 1] \<in> set trigger_paths \<and>
   click_actions (BurgerButton True :: (bool, unit) view) [0, 1] = Some [SetState False]"
  using BurgerButton_click_trigger [of "[0, 1]" True] by (simp add: trigger_paths_def)

lemma BurgerButton_panel_actions:
  "(\<Union>n\<in>set (nodes (children (BurgerButton b :: (bool, 'u) view) ! 1)). set (node_actions n)) =
     {Navigate ''/login'', Navigate ''/''}"
  by (auto simp: burger_defs prop_get_def)

lemma BurgerButton_root_actions: "node_actions (BurgerButton b) = []"
  by (simp add: BurgerButton_def prop_get_def)

text \<open>
  C8. No click inside the panel (the links, the logo, the text after it) queues a
  state update: the panel has no handler, and the menu does not close itself.
\<close>

theorem BurgerButton_panel_no_toggle:
  "click_actions (BurgerButton b :: (bool, 'u) view) (1 # q) = Some as \<Longrightarrow> \<forall>v. SetState v \<notin> set as"
proof -
  assume "click_actions (BurgerButton b :: (bool, 'u) view) (1 # q) = Some as"
  from click_actions_Cons [OF this] obtain as'
    where as': "click_actions (children (BurgerButton b :: (bool, 'u) view) ! 1) q = Some as'"
    and as: "as = as' @ node_actions (BurgerButton b :: (bool, 'u) view)"
    by blast
  from click_actions_in_nodes [OF as'] have "set as' \<subseteq> {Navigate ''/login'', Navigate ''/''}"
    by (simp only: BurgerButton_panel_actions)
  with as show ?thesis by (auto simp: BurgerButton_root_actions)
qed

theorem BurgerButton_panel_no_toggle_witness:
  "click_actions (BurgerButton True :: (bool, unit) view) [1, 0, 0, 0] = Some [Navigate ''/login''] \<and>
   (\<forall>v. SetState v \<notin> set [Navigate ''/login''])"
proof -
  have h: "click_actions (BurgerButton True :: (bool, unit) view) [1, 0, 0, 0] = Some [Navigate ''/login'']"
    by (simp add: click_actions_def burger_defs prop_get_def)
  from BurgerButton_panel_no_toggle [OF h] h show ?thesis by simp
qed

text \<open>
  C9. A click on the \<open>k\<close>-th link of the panel fires exactly one action: navigation
  to that link's target (LOGIN to \<open>/login\<close>, the other three to \<open>/\<close>).
\<close>

theorem BurgerButton_click_link:
  "k < 4 \<Longrightarrow> click_actions (BurgerButton b) [1, 0, k, 0] = Some [Navigate (snd (nav_links ! k))]"
  by (auto simp: numeral_eq_Suc less_Suc_eq click_actions_def burger_defs prop_get_def nav_links_def)

theorem BurgerButton_click_link_witness:
  "(0::nat) < 4 \<and>
   click_actions (BurgerButton False :: (bool, unit) view) [1, 0, 0, 0] = Some [Navigate ''/login'']"
  using BurgerButton_click_link [of 0 False] by (simp add: nav_links_def)

subsection \<open>The links of both menus\<close>

text \<open>
  C10. Both menus show the same link sequence: the panel of \<open>BurgerButton\<close>, open or
  closed, lists exactly the links of \<open>MyMenu\<close> in the same order. The panel is in the
  view in both states; only its classes differ.
\<close>

theorem menus_same_links:
  "links_of (BurgerButton b) = links_of MyMenu"
  by (simp add: links_of_def MyMenu_def burger_defs markup_simps)

text \<open>
  C11. The text of the burger panel ends with a semicolon that \<open>MyMenu\<close> does not
  have: the \<open>;\<close> after \<open><img ...></img>\<close> on line 30 is JSX text, not a statement
  terminator, and is rendered after the logo.
\<close>

theorem BurgerButton_panel_text:
  "map_option text_content (subtree (BurgerButton b) [1]) = Some ''LOGINHOMEABOUTCONTACTS;'' \<and>
   text_content MyMenu = ''LOGINHOMEABOUTCONTACTS''"
  by (simp add: BurgerButton_def MyMenu_def Link_def)

end
