(* ===== verification/BannedList.thy ===== *)
theory BannedList
  imports Markup
begin

text \<open>
  The page of \<open>src/frontend/src/pages/bannedUserList.jsx\<close>: \<open>BannedList\<close> takes a props
  object, destructures its property \<open>List\<close> (\<open>undefined\<close> when absent) and renders
  a fragment of a header with \<open>MyHeader\<close>, a section whose nested \<open>div\<close>s hold
  \<open>BannedUserList\<close> with the prop \<open>userList={List}\<close>, and a footer with
  \<open>MyFooter\<close>. The three child components are defined outside the sources; they appear
  as component elements with their props, as a test renderer shows them.
  The lemmas show that the list is forwarded as it is and that the page's structure does
  not depend on it.
\<close>

definition BannedList :: "('h, 'u) props \<Rightarrow> ('h, 'u) node" where
  "BannedList props =
     (let List = prop_get props ''List''
      in Frag
          [Elem ''header'' [] [Comp ''MyHeader'' [] []],
           Elem ''section'' []
            [Elem ''div'' [(''className'', PStr ''total-body'')]
              [Elem ''div'' [] [Comp ''BannedUserList'' [(''userList'', List)] []]]],
           Elem ''footer'' [] [Comp ''MyFooter'' [] []]])"

definition elem_tag :: "('h, 'u) node \<Rightarrow> tag option" where
  "elem_tag n = (case n of Elem t _ _ \<Rightarrow> Some t | _ \<Rightarrow> None)"

text \<open>
  C12. The page contains exactly one \<open>BannedUserList\<close>, and its \<open>userList\<close> prop is
  the page's \<open>List\<close> prop, unmodified, whatever its value (an array of any length,
  or \<open>undefined\<close> when the page gets no \<open>List\<close>).
\<close>

theorem BannedList_forwards_list:
  "find_all (is_comp ''BannedUserList'') (BannedList ps) =
     [Comp ''BannedUserList'' [(''userList'', prop_get ps ''List'')] []]"
  by (simp add: BannedList_def markup_simps Let_def)

text \<open>
  C13. For every props object, the empty list included, the page is a header, a section
  and a footer, in this order, with exactly one \<open>MyHeader\<close> and one \<open>MyFooter\<close>.
\<close>

theorem BannedList_regions:
  "map elem_tag (children (BannedList ps)) = [Some ''header'', Some ''section'', Some ''footer''] \<and>
   find_all (is_comp ''MyHeader'') (BannedList ps) = [Comp ''MyHeader'' [] []] \<and>
   find_all (is_comp ''MyFooter'') (BannedList ps) = [Comp ''MyFooter'' [] []]"
  by (simp add: BannedList_def elem_tag_def markup_simps Let_def)

text \<open>
  C14. The page depends on its props only through \<open>List\<close>: two props objects render
  the same page exactly when their \<open>List\<close> values are the same.
\<close>

theorem BannedList_depends_only_on_List:
  "BannedList ps = BannedList ps' \<longleftrightarrow> prop_get ps ''List'' = prop_get ps' ''List''"
  by (simp add: BannedList_def Let_def)

end
