(* ===== verification/Spec2Isabelle.thy ===== *)
theory Spec2Isabelle
  imports BurgerButton BannedList
begin

text \<open>
  \<^bold>\<open>A verification model of the Metaclass front-end navigation components.\<close>

  \<^bold>\<open>The program.\<close> Two React source files.
  \<^item> \<open>src/frontend/src/components/BurgerButton/menu-button.jsx\<close> defines
    \<open>BurgerButton\<close> (the spec's ToggleMenu): one state hook \<open>isOpen\<close> created by
    \<open>useState(false)\<close>, a click handler \<open>handleClick\<close> that calls
    \<open>setIsOpen(!isOpen)\<close>, the class strings \<open>buttonClass\<close> and \<open>menuClass\<close>, and a
    view made of a trigger (three bars) and a panel (four react-router links, the logo,
    and a stray \<open>;\<close>). It also defines \<open>MyMenu\<close> (the spec's StaticMenu), the same
    four links without state.
  \<^item> \<open>src/frontend/src/pages/bannedUserList.jsx\<close> defines \<open>BannedList\<close> (the spec's
    PageShell): header, a section holding \<open>BannedUserList userList={List}\<close>, footer.
  The components interact only through their host: React renders them, dispatches clicks
  to the handlers in the committed view, queues the state updates the handlers request
  and renders again; react-router's \<open>Link\<close> changes the location when clicked.

  \<^bold>\<open>Theories.\<close>
  \<^item> \<open>Prelude\<close>: type names (\<open>path\<close>, \<open>url\<close>, \<open>tag\<close>), the \<open>markup_simps\<close>
    collection, and the browser's split of a class attribute into tokens
    (\<open>class_tokens\<close>) with its append lemmas.
  \<^item> \<open>Markup\<close>: the rendered JSX as a tree (\<open>node\<close>: host element, component element,
    text, fragment; attribute values \<open>pval\<close>: string, asset, function, array,
    undefined), and the queries a test reads: \<open>subtree\<close> and \<open>path_nodes\<close> at a path of
    child indices (\<open>None\<close> off the tree), \<open>nodes\<close> in document order, \<open>find_all\<close>,
    \<open>text_content\<close>, \<open>classes_at\<close>, and \<open>paths_of\<close>, the list of every valid path,
    with \<open>paths_of_subtree\<close> proving it complete.
  \<^item> \<open>Runtime\<close>: the host, written from the spec's section 5 and React's documented
    semantics (no source of this repository): an instance record (\<open>hook\<close>,
    \<open>pending\<close> update queue, committed \<open>view\<close>, router \<open>location\<close>); \<open>click\<close>
    dispatches at a path and bubbles to the root (\<open>click_actions\<close>), each host element
    contributing its \<open>onClick\<close> and each \<open>Link\<close> its navigation; \<open>commit\<close> folds the
    queue with React's basic reducer (last value wins) and re-renders; \<open>step\<close>,
    \<open>run\<close> over \<open>event\<close>s, and the reachable instances \<open>reach\<close> as an inductive
    predicate. Generic lemmas: every reachable instance shows the render of its state
    (\<open>reach_consistent\<close>), and the interface lemma \<open>reach_pending\<close>: a property that
    every update a render's handlers can queue has holds of every queued update.
    The model keeps one mounted instance; the router location it records is that
    instance's view of the shared browser location.
  \<^item> \<open>BurgerButton\<close>: \<open>handleClick\<close>, \<open>buttonClass\<close>, \<open>menuClass\<close>,
    \<open>BurgerButton\<close> (the render for a value of \<open>isOpen\<close>, lines 6 to 34) and
    \<open>MyMenu\<close> (lines 36 to 45), with the claims on a single render (C6 to C11).
  \<^item> \<open>BannedList\<close>: \<open>BannedList\<close> (lines 7 to 27) and its claims (C12 to C14).
  \<^item> This theory: the abstract menu of the spec (\<open>menu_state\<close>, \<open>toggle\<close>,
    \<open>menu_spec_step\<close>), the user-level reading of a click position
    (\<open>burger_event\<close>), the complete table of click actions of the view
    (\<open>BurgerButton_click_spec\<close>), and the claims about the mounted component over time
    (C1 to C5, C15): a tap toggles, \<open>n\<close> taps from mount give \<open>odd n\<close>, a
    re-render flips at most once however many clicks were queued, the classes always
    show the state, the component refines the abstract menu, and a link navigates
    without closing the menu.

  \<^bold>\<open>Bounds and fuel.\<close> None are needed: every function is structurally recursive
  (over the tree, the path or the event list) and total; the view of \<open>BurgerButton\<close> is
  finite, so properties of every click are checked over \<open>paths_of\<close> (21 paths) and
  the paths outside it, which address nothing.

  \<^bold>\<open>Not modelled.\<close> CSS (whether a closed panel is visible is decided by
  \<open>menu-button.css\<close>, not by the sources), the image file, the internals of
  \<open>MyHeader\<close>, \<open>MyFooter\<close> and \<open>BannedUserList\<close> (not in the sources; they appear
  as component elements with their props), React's scheduler beyond the queue-then-commit
  cycle, and the duplicates React's class list would drop (no class string here repeats).
  Several instances on one page are not modelled: they would share the browser location,
  which a per-instance record cannot express. The runtime lets any number of clicks queue
  before a commit; React 18 flushes each discrete click before the next, so the model
  allows more interleavings than React, and the claims hold for all of them.

  \<^bold>\<open>Plan.\<close> Done: the data model of the rendered markup, the host runtime, every
  operation of the three components, their single-render properties (functional, class
  tokens, click table, link lists, text), the mounted menu's behaviour over time
  (toggle, parity, the stale-closure invariant, the class invariant, the refinement of
  the spec's two-state machine, link navigation). Next, in this order: the serialisation of a view to the HTML string React
  DOM produces (\<open>Link\<close> as an anchor, attribute and text escaping) with the
  properties of the class and text output; the functional-update form
  \<open>setIsOpen(o => !o)\<close> as a reference handler and the proof that it, unlike the
  source's, flips once per queued click; a render-level model of \<open>BannedUserList\<close>
  once its source is available.
\<close>


section \<open>The abstract menu of the spec\<close>

text \<open>
  The spec's ToggleMenu (section 4.1) as an abstract machine: two states, \<open>Closed\<close>
  initially, one transition \<open>toggle\<close> between them; a user event is a toggle, a
  navigation to a link target, or nothing. The concrete instance is read as the abstract
  state of its hook and its router location.
\<close>

datatype menu_state = Closed | Open

datatype menu_event = Toggle | Go url | Idle

primrec toggle :: "menu_state \<Rightarrow> menu_state" where
  "toggle Closed = Open"
| "toggle Open = Closed"

fun menu_spec_step :: "menu_state \<times> url \<Rightarrow> menu_event \<Rightarrow> menu_state \<times> url" where
  "menu_spec_step (m, u) Toggle = (toggle m, u)"
| "menu_spec_step (m, u) (Go v) = (m, v)"
| "menu_spec_step (m, u) Idle = (m, u)"

definition abs_menu :: "bool \<Rightarrow> menu_state" where
  "abs_menu b = (if b then Open else Closed)"

definition abs_inst :: "(bool, 'u) inst \<Rightarrow> menu_state \<times> url" where
  "abs_inst st = (abs_menu (hook st), location st)"

text \<open>
  Where the user clicks, read at the level of the spec: the trigger and its bars toggle,
  the \<open>k\<close>-th link (the \<open>Link\<close> element or its text) navigates to its target,
  anything else does nothing.
\<close>

definition link_paths :: "nat \<Rightarrow> path list" where
  "link_paths k = [[1, 0, k, 0], [1, 0, k, 0, 0]]"

definition burger_event :: "path \<Rightarrow> menu_event" where
  "burger_event p =
     (if p \<in> set trigger_paths then Toggle
      else (case find (\<lambda>k. p \<in> set (link_paths k)) [0, 1, 2, 3] of
              Some k \<Rightarrow> Go (snd (nav_links ! k))
            | None \<Rightarrow> Idle))"

text \<open>
  A discrete user interaction: a click and the synchronous re-render React performs for
  discrete events.
\<close>

definition interact :: "(bool, 'u) inst \<Rightarrow> path \<Rightarrow> (bool, 'u) inst" where
  "interact st p = commit BurgerButton (click p st)"

text \<open>The actions the view's handlers fire for a user event.\<close>

fun event_actions :: "bool \<Rightarrow> menu_event \<Rightarrow> bool action list" where
  "event_actions b Toggle = [SetState (\<not> b)]"
| "event_actions b (Go u) = [Navigate u]"
| "event_actions b Idle = []"

definition interact_all :: "(bool, 'u) inst \<Rightarrow> path list \<Rightarrow> (bool, 'u) inst" where
  "interact_all st ps = fold (\<lambda>p st. interact st p) ps st"

section \<open>The view against the abstract menu\<close>

lemma burger_event_paths:
  assumes "burger_event p \<noteq> Idle"
  shows "p \<in> set (paths_of (BurgerButton b :: (bool, 'u) view))"
proof -
  have sub: "set trigger_paths \<union> (\<Union>k\<in>set [0, 1, 2, 3]. set (link_paths k)) \<subseteq>
             set (paths_of (BurgerButton b :: (bool, 'u) view))"
    by (simp add: trigger_paths_def link_paths_def burger_defs)
  from assms have "p \<in> set trigger_paths \<or> find (\<lambda>k. p \<in> set (link_paths k)) [0, 1, 2, 3] \<noteq> None"
    by (auto simp: burger_event_def split: if_splits option.splits)
  then have "p \<in> set trigger_paths \<or> (\<exists>k\<in>set [0, 1, 2, 3]. p \<in> set (link_paths k))"
    by (simp only: find_None_iff) blast
  with sub show ?thesis by blast
qed

lemma BurgerButton_click_spec:
  "click_actions (BurgerButton b :: (bool, 'u) view) p =
     (if p \<in> set (paths_of (BurgerButton b :: (bool, 'u) view))
      then Some (event_actions b (burger_event p)) else None)"
proof (cases "p \<in> set (paths_of (BurgerButton b :: (bool, 'u) view))")
  case True
  have "\<forall>p\<in>set (paths_of (BurgerButton b :: (bool, 'u) view)).
          click_actions (BurgerButton b :: (bool, 'u) view) p = Some (event_actions b (burger_event p))"
    by (simp add: click_actions_def burger_defs prop_get_def burger_event_def trigger_paths_def
        link_paths_def nav_links_def)
  with True show ?thesis by simp
next
  case False
  then show ?thesis by (simp add: click_actions_def path_nodes_None_iff paths_of_subtree)
qed


lemma burger_pending_fresh:
  "reach BurgerButton s0 loc st \<Longrightarrow> \<forall>v\<in>set (pending st). v = (\<not> hook st)"
  by (rule reach_pending [where Q = "\<lambda>s v. v = (\<not> s)"]) (rule BurgerButton_setstate)

lemma burger_view: "reach BurgerButton s0 loc st \<Longrightarrow> view st = BurgerButton (hook st)"
  by (drule reach_consistent) (simp add: consistent_def)

lemma burger_tap:
  fixes st :: "(bool, 'u) inst"
  assumes r: "reach BurgerButton s0 loc st" and p: "p \<in> set trigger_paths"
  shows "commit BurgerButton (click p st) =
           st\<lparr>hook := \<not> hook st, pending := [], view := BurgerButton (\<not> hook st)\<rparr>"
proof -
  from p have "burger_event p = Toggle" by (simp add: burger_event_def)
  with burger_event_paths [of p "hook st", where 'u = 'u]
  have "click_actions (BurgerButton (hook st) :: (bool, 'u) view) p = Some [SetState (\<not> hook st)]"
    by (simp add: BurgerButton_click_spec)
  then have "click p st = st\<lparr>pending := pending st @ [\<not> hook st]\<rparr>"
    using burger_view [OF r] by (simp add: click_def)
  then show ?thesis by (simp add: commit_def Let_def process_queue_last)
qed

lemma burger_interact:
  fixes st :: "(bool, 'u) inst"
  assumes r: "reach BurgerButton s0 loc st" and e: "pending st = []"
  shows "abs_inst (interact st p) = menu_spec_step (abs_inst st) (burger_event p)"
proof (cases "p \<in> set (paths_of (BurgerButton (hook st) :: (bool, 'u) view))")
  case True
  then have "click p st = fold perform (event_actions (hook st) (burger_event p)) st"
    using burger_view [OF r] by (simp add: click_def BurgerButton_click_spec)
  with e show ?thesis
    by (cases "burger_event p")
      (auto simp: interact_def abs_inst_def abs_menu_def commit_def Let_def process_queue_last)
next
  case False
  then have "burger_event p = Idle" by (metis burger_event_paths)
  moreover from False have "click p st = st"
    using burger_view [OF r] by (simp add: click_def BurgerButton_click_spec)
  ultimately show ?thesis using e by (simp add: interact_def commit_def abs_inst_def)
qed

lemma burger_interact_all:
  "reach BurgerButton s0 loc st \<Longrightarrow> pending st = [] \<Longrightarrow>
   abs_inst (interact_all st ps) = fold (\<lambda>p a. menu_spec_step a (burger_event p)) ps (abs_inst st)"
proof (induction ps arbitrary: st)
  case Nil
  then show ?case by (simp add: interact_all_def)
next
  case (Cons p ps)
  have "reach BurgerButton s0 loc (interact st p)"
    using Cons.prems(1) by (simp add: interact_def reach_interact)
  moreover have "pending (interact st p) = []" by (simp add: interact_def commit_pending)
  ultimately have "abs_inst (interact_all (interact st p) ps) =
      fold (\<lambda>p a. menu_spec_step a (burger_event p)) ps (abs_inst (interact st p))"
    by (rule Cons.IH)
  with burger_interact [OF Cons.prems] show ?case by (simp add: interact_all_def)
qed

lemma burger_taps_hook:
  "reach BurgerButton s0 loc st \<Longrightarrow>
   hook (run BurgerButton st (concat (replicate n [Click [0], Commit]))) = (hook st \<noteq> odd n)"
proof (induction n arbitrary: st)
  case 0
  then show ?case by simp
next
  case (Suc n)
  let ?st' = "commit BurgerButton (click [0] st)"
  have "reach BurgerButton s0 loc ?st'" using Suc.prems by (rule reach_interact)
  then have "hook (run BurgerButton ?st' (concat (replicate n [Click [0], Commit]))) = (hook ?st' \<noteq> odd n)"
    by (rule Suc.IH)
  moreover have "hook ?st' = (\<not> hook st)"
    using burger_tap [OF Suc.prems, of "[0]"] by (simp add: trigger_paths_def)
  ultimately show ?case by simp
qed

lemma burger_event_link: "k < 4 \<Longrightarrow> burger_event [1, 0, k, 0] = Go (snd (nav_links ! k))"
  by (auto simp: numeral_eq_Suc less_Suc_eq burger_event_def trigger_paths_def link_paths_def)

section \<open>Claims about the mounted menu\<close>

text \<open>
  C1. From a reachable instance with nothing queued, a click on the trigger (or any of
  its bars) followed by the re-render flips \<open>isOpen\<close> and shows the render of the new
  state; the location is unchanged.
\<close>
theorem burger_click_toggles:
  "reach BurgerButton BurgerButton_init loc st \<Longrightarrow> pending st = [] \<Longrightarrow> p \<in> set trigger_paths \<Longrightarrow>
   run BurgerButton st [Click p, Commit] =
     st\<lparr>hook := \<not> hook st, view := BurgerButton (\<not> hook st)\<rparr>"
  by (simp add: burger_tap)

theorem burger_click_toggles_witness:
  "reach BurgerButton BurgerButton_init '''' (mount BurgerButton BurgerButton_init '''' :: (bool, unit) inst) \<and>
   pending (mount BurgerButton BurgerButton_init '''' :: (bool, unit) inst) = [] \<and> [0] \<in> set trigger_paths \<and>
   hook (run BurgerButton (mount BurgerButton BurgerButton_init '''' :: (bool, unit) inst) [Click [0], Commit]) = True"
proof -
  let ?st = "mount BurgerButton BurgerButton_init '''' :: (bool, unit) inst"
  have r: "reach BurgerButton BurgerButton_init '''' ?st" by (rule reach.start)
  have e: "pending ?st = []" by (simp add: mount_def)
  have p: "[0] \<in> set trigger_paths" by (simp add: trigger_paths_def)
  from burger_click_toggles [OF r e p] r e p show ?thesis
    by (simp add: mount_def BurgerButton_init_def)
qed

text \<open>
  C2. After \<open>n\<close> taps on the trigger of a freshly mounted menu, each followed by
  its re-render, the menu is open exactly when \<open>n\<close> is odd.
\<close>
theorem burger_toggle_parity:
  "hook (run BurgerButton (mount BurgerButton BurgerButton_init loc)
           (concat (replicate n [Click [0], Commit]))) = odd n"
  using burger_taps_hook [OF reach.start [of BurgerButton BurgerButton_init loc], of n]
  by (simp add: mount_def BurgerButton_init_def)

text \<open>
  C3. In every reachable instance a re-render flips \<open>isOpen\<close> at most once: it
  keeps the state when nothing is queued and negates it otherwise, however many clicks
  were queued. Every queued update is \<open>!isOpen\<close> of the same render, because
  \<open>handleClick\<close> reads \<open>isOpen\<close> from its closure; two clicks handled before a
  re-render open the menu once instead of closing it again.
\<close>
theorem burger_commit_flips_once:
  "reach BurgerButton s0 loc st \<Longrightarrow>
   hook (commit BurgerButton st) = (if pending st = [] then hook st else \<not> hook st)"
  using burger_pending_fresh [of s0 loc st] by (auto simp: commit_hook)

theorem burger_commit_flips_once_witness:
  "reach BurgerButton BurgerButton_init ''''
     (run BurgerButton (mount BurgerButton BurgerButton_init '''' :: (bool, unit) inst) [Click [0], Click [0]]) \<and>
   pending (run BurgerButton (mount BurgerButton BurgerButton_init '''' :: (bool, unit) inst) [Click [0], Click [0]]) = [True, True] \<and>
   hook (commit BurgerButton (run BurgerButton (mount BurgerButton BurgerButton_init '''' :: (bool, unit) inst) [Click [0], Click [0]])) = True"
proof -
  let ?st = "run BurgerButton (mount BurgerButton BurgerButton_init '''' :: (bool, unit) inst) [Click [0], Click [0]]"
  have r: "reach BurgerButton BurgerButton_init '''' ?st" by (rule reach_run [OF reach.start])
  have e: "pending ?st = [True, True] \<and> hook ?st = False"
    by (simp add: mount_def BurgerButton_init_def click_def click_actions_def burger_defs prop_get_def)
  from burger_commit_flips_once [OF r] r e show ?thesis by simp
qed


text \<open>
  C4. In every reachable instance the trigger carries the class \<open>open\<close>, and the
  panel the class \<open>menu2Open\<close>, exactly when \<open>isOpen\<close> holds.
\<close>
theorem burger_view_classes:
  "reach BurgerButton s0 loc st \<Longrightarrow>
   classes_at (view st) [0] = Some (''hamburger-menu'' # (if hook st then [''open''] else [])) \<and>
   classes_at (view st) [1] = Some (''menu2'' # (if hook st then [''menu2Open''] else []))"
  by (drule burger_view) (simp add: BurgerButton_def markup_simps burger_class_tokens)

theorem burger_view_classes_witness:
  "classes_at (view (run BurgerButton (mount BurgerButton BurgerButton_init '''' :: (bool, unit) inst)
                      [Click [0], Commit])) [0] = Some [''hamburger-menu'', ''open'']"
proof -
  let ?st = "run BurgerButton (mount BurgerButton BurgerButton_init '''' :: (bool, unit) inst) [Click [0], Commit]"
  have r: "reach BurgerButton BurgerButton_init '''' ?st" by (rule reach_run [OF reach.start])
  have h: "hook ?st = True"
    by (simp add: mount_def BurgerButton_init_def click_def click_actions_def commit_def
        process_queue_def basic_reducer_def burger_defs prop_get_def)
  from burger_view_classes [OF r] h show ?thesis by simp
qed

text \<open>
  C5. The mounted component refines the spec's menu: after any sequence of discrete
  clicks, at any positions, its state and location are those of the abstract machine run
  on the user events the positions denote, from \<open>Closed\<close>.
\<close>
theorem burger_refines_menu_spec:
  "abs_inst (interact_all (mount BurgerButton BurgerButton_init loc) ps) =
     fold (\<lambda>p a. menu_spec_step a (burger_event p)) ps (Closed, loc)"
  using burger_interact_all [OF reach.start [of BurgerButton BurgerButton_init loc], of ps]
  by (simp add: mount_def abs_inst_def abs_menu_def BurgerButton_init_def)

text \<open>
  C15. A click on a link of the panel, followed by the re-render, navigates to the
  link's target and changes nothing else: in particular an open menu stays open.
\<close>
theorem burger_link_keeps_menu:
  fixes st :: "(bool, 'u) inst"
  assumes r: "reach BurgerButton s0 loc st" and e: "pending st = []" and k: "k < 4"
  shows "run BurgerButton st [Click [1, 0, k, 0], Commit] = st\<lparr>location := snd (nav_links ! k)\<rparr>"
proof -
  have ev: "burger_event [1, 0, k, 0] = Go (snd (nav_links ! k))" using k by (rule burger_event_link)
  then have "[1, 0, k, 0] \<in> set (paths_of (BurgerButton (hook st) :: (bool, 'u) view))"
    by (intro burger_event_paths) simp
  with ev have "click [1, 0, k, 0] st = st\<lparr>location := snd (nav_links ! k)\<rparr>"
    using burger_view [OF r] by (simp add: click_def BurgerButton_click_spec)
  with e show ?thesis by (simp add: commit_def)
qed

theorem burger_link_keeps_menu_witness:
  "run BurgerButton (mount BurgerButton BurgerButton_init '''' :: (bool, unit) inst) [Click [1, 0, 0, 0], Commit] =
     mount BurgerButton BurgerButton_init ''/login''"
proof -
  have r: "reach BurgerButton BurgerButton_init '''' (mount BurgerButton BurgerButton_init '''' :: (bool, unit) inst)"
    by (rule reach.start)
  have e: "pending (mount BurgerButton BurgerButton_init '''' :: (bool, unit) inst) = []" by (simp add: mount_def)
  from burger_link_keeps_menu [OF r e, of 0] show ?thesis by (simp add: mount_def nav_links_def)
qed

end
